theory Spec2Isabelle
  imports Complex_Main "HOL-Library.Log_Nat"
begin

section \<open>JavaScript numbers\<close>

text \<open>
  Every number of \<^verbatim>\<open>App.tsx\<close> is an IEEE 754 double. Grid sizes, positions, ids and
  the cell width are produced by \<^verbatim>\<open>parseInt\<close>, by \<^verbatim>\<open>prev.length\<close>, by an array index
  or by \<^verbatim>\<open>Date.now()\<close>; they are integers, and a double holds every integer of
  magnitude below \<open>2 ^ 53\<close> exactly, with exact \<open>+\<close>, \<open>-\<close> and \<open>*\<close> on them. They are
  modelled as \<open>int\<close>. \<^verbatim>\<open>NaN\<close>, which only \<^verbatim>\<open>parseInt\<close> produces, is \<open>None\<close>.

  The one place where a fraction is computed is \<^verbatim>\<open>customWidth * MTG_RATIO\<close> with
  \<^verbatim>\<open>MTG_RATIO = 7/5\<close>. There the double arithmetic is modelled itself: a finite double
  is the rational it denotes, and an arithmetic operation is the exact rational result
  rounded to 53 significant bits, ties to even (\<open>fl53\<close>). Overflow and subnormal numbers
  are outside the model; the values rounded here lie between 1 and \<open>2 ^ 53\<close>.
\<close>

text \<open>\<open>binade x\<close> is the exponent \<open>e\<close> with \<open>2 ^ e \<le> x < 2 ^ (e + 1)\<close>, for \<open>0 < x\<close>.\<close>

definition binade :: "rat \<Rightarrow> int" where
  "binade x = (if 1 \<le> x then bitlen \<lfloor>x\<rfloor> - 1 else - bitlen (\<lceil>1 / x\<rceil> - 1))"

definition fl53 :: "rat \<Rightarrow> rat" where
  "fl53 x =
     (if x = 0 then 0
      else let a = \<bar>x\<bar>;
               q = 2 powi (binade a - 52);
               m = a / q;
               f = \<lfloor>m\<rfloor>;
               r = m - of_int f;
               n = (if r < 1 / 2 then f
                    else if 1 / 2 < r then f + 1
                    else if even f then f else f + 1)
           in sgn x * (of_int n * q))"

text \<open>
  \<^verbatim>\<open>Math.round(x)\<close>: the integer closest to \<open>x\<close>, the one towards \<open>+\<infinity>\<close> of two equally
  close ones.
\<close>

definition Math_round :: "rat \<Rightarrow> int" where
  "Math_round x = \<lfloor>x + 1 / 2\<rfloor>"

text \<open>
  \<^verbatim>\<open>a % b\<close> on integers, \<open>b \<noteq> 0\<close>: the remainder of the division truncated towards zero;
  it has the sign of \<open>a\<close>.
\<close>

definition js_rem :: "int \<Rightarrow> int \<Rightarrow> int" where
  "js_rem a b = sgn a * (\<bar>a\<bar> mod \<bar>b\<bar>)"

text \<open>
  \<^verbatim>\<open>x || d\<close> for a number \<open>x\<close>: \<^verbatim>\<open>NaN\<close> and \<open>0\<close> are falsy and yield \<open>d\<close>; every other
  number yields itself.
\<close>

definition js_or :: "int option \<Rightarrow> int \<Rightarrow> int" where
  "js_or x d = (case x of None \<Rightarrow> d | Some n \<Rightarrow> if n = 0 then d else n)"

subsection \<open>\<^verbatim>\<open>parseInt\<close> with one argument\<close>

text \<open>
  ECMAScript \<^verbatim>\<open>parseInt(string)\<close>: leading white space is dropped, one sign is read, a
  prefix \<^verbatim>\<open>0x\<close> or \<^verbatim>\<open>0X\<close> selects radix 16 (radix 10 otherwise), and the longest run of
  digits of that radix is the value; anything after it is ignored, and no digit at all
  gives \<^verbatim>\<open>NaN\<close>. Strings are taken over ASCII, so the white space is the six ASCII white
  space and line terminator characters.
\<close>

definition is_ws :: "char \<Rightarrow> bool" where
  "is_ws c = (c \<in> set [CHR 0x09, CHR 0x0A, CHR 0x0B, CHR 0x0C, CHR 0x0D, CHR 0x20])"

definition digit_of :: "char \<Rightarrow> nat option" where
  "digit_of c =
     (let n = (of_char c :: nat) in
      if 48 \<le> n \<and> n \<le> 57 then Some (n - 48)
      else if 97 \<le> n \<and> n \<le> 122 then Some (n - 87)
      else if 65 \<le> n \<and> n \<le> 90 then Some (n - 55)
      else None)"

definition is_digit :: "nat \<Rightarrow> char \<Rightarrow> bool" where
  "is_digit radix c = (case digit_of c of None \<Rightarrow> False | Some d \<Rightarrow> d < radix)"

definition digits_value :: "nat \<Rightarrow> string \<Rightarrow> nat" where
  "digits_value radix z = foldl (\<lambda>acc c. acc * radix + (case digit_of c of None \<Rightarrow> 0 | Some d \<Rightarrow> d)) 0 z"

definition parseInt :: "string \<Rightarrow> int option" where
  "parseInt inputString =
     (let s1 = dropWhile is_ws inputString;
          sign = (if s1 \<noteq> [] \<and> hd s1 = CHR ''-'' then - 1 else 1 :: int);
          s2 = (if s1 \<noteq> [] \<and> (hd s1 = CHR ''+'' \<or> hd s1 = CHR ''-'') then tl s1 else s1);
          hex = (take 2 s2 = ''0x'' \<or> take 2 s2 = ''0X'');
          radix = (if hex then 16 else 10 :: nat);
          s3 = (if hex then drop 2 s2 else s2);
          z = takeWhile (is_digit radix) s3
      in if z = [] then None else Some (sign * int (digits_value radix z)))"


section \<open>Data model\<close>

text \<open>
  The interfaces of \<^verbatim>\<open>App.tsx\<close>. The type variable \<open>'i\<close> stands for the decoded
  \<^verbatim>\<open>HTMLImageElement\<close>; the fields \<^verbatim>\<open>id\<close> and \<^verbatim>\<open>image\<close> are \<open>img_id\<close> and \<open>image_el\<close>
  here.
\<close>

record 'i ImageData =
  img_id :: int
  src :: string
  image_el :: 'i
  name :: string
  position :: int

record GridSize =
  rows :: int
  cols :: int

record CellDimensions =
  width :: int
  height :: int

text \<open>
  The component state: the three \<^verbatim>\<open>useState\<close> cells. The initial values are those of
  the source. There is no cell for the height.
\<close>

record 'i app_state =
  images :: "'i ImageData list"
  gridSize :: GridSize
  customWidth :: int

definition initial_state :: "'i app_state" where
  "initial_state = \<lparr>images = [], gridSize = \<lparr>rows = 7, cols = 10\<rparr>, customWidth = 300\<rparr>"

definition MTG_RATIO :: rat where
  "MTG_RATIO = fl53 (7 / 5)"

definition customHeight :: "int \<Rightarrow> int" where
  "customHeight w = Math_round (fl53 (of_int w * MTG_RATIO))"

definition getActualCellDimensions :: "'i app_state \<Rightarrow> CellDimensions" where
  "getActualCellDimensions st =
     \<lparr>width = customWidth st, height = customHeight (customWidth st)\<rparr>"

definition cellDimensions :: "'i app_state \<Rightarrow> CellDimensions" where
  "cellDimensions st = getActualCellDimensions st"

section \<open>The handlers\<close>

text \<open>
  Each handler is the state update it passes to \<^verbatim>\<open>setImages\<close> or \<^verbatim>\<open>setGridSize\<close>. The
  string argument is \<^verbatim>\<open>event.target.value\<close>. The width comes from a range input with
  \<^verbatim>\<open>min="200"\<close> and \<^verbatim>\<open>max="600"\<close>, whose value the browser keeps an integer within these
  bounds; \<^verbatim>\<open>handleCustomWidthChange\<close> stores it as it is.
\<close>

definition moveImage :: "int \<Rightarrow> int \<Rightarrow> 'i app_state \<Rightarrow> 'i app_state" where
  "moveImage imageId newPosition st =
     st\<lparr>images := map (\<lambda>img. if img_id img = imageId then img\<lparr>position := newPosition\<rparr> else img)
                      (images st)\<rparr>"

definition removeImage :: "int \<Rightarrow> 'i app_state \<Rightarrow> 'i app_state" where
  "removeImage imageId st = st\<lparr>images := filter (\<lambda>img. img_id img \<noteq> imageId) (images st)\<rparr>"

definition clearAll :: "'i app_state \<Rightarrow> 'i app_state" where
  "clearAll st = st\<lparr>images := []\<rparr>"

definition autoArrange :: "'i app_state \<Rightarrow> 'i app_state" where
  "autoArrange st =
     st\<lparr>images := map (\<lambda>(index, img). img\<lparr>position := int index\<rparr>) (enumerate 0 (images st))\<rparr>"

definition handleGridRowsChange :: "string \<Rightarrow> 'i app_state \<Rightarrow> 'i app_state" where
  "handleGridRowsChange v st = st\<lparr>gridSize := (gridSize st)\<lparr>rows := js_or (parseInt v) 1\<rparr>\<rparr>"

definition handleGridColsChange :: "string \<Rightarrow> 'i app_state \<Rightarrow> 'i app_state" where
  "handleGridColsChange v st = st\<lparr>gridSize := (gridSize st)\<lparr>cols := js_or (parseInt v) 1\<rparr>\<rparr>"

text \<open>\<^verbatim>\<open>parseInt(value) - 1 || 0\<close>: the subtraction binds tighter, and \<^verbatim>\<open>NaN - 1\<close> is \<^verbatim>\<open>NaN\<close>.\<close>

definition handlePositionChange :: "int \<Rightarrow> string \<Rightarrow> 'i app_state \<Rightarrow> 'i app_state" where
  "handlePositionChange imageId v st =
     moveImage imageId (js_or (map_option (\<lambda>n. n - 1) (parseInt v)) 0) st"

subsection \<open>Upload\<close>

text \<open>
  \<^verbatim>\<open>handleImageUpload\<close> starts, for every selected file whose type begins with
  \<^verbatim>\<open>image/\<close>, a read and then a decode; when the decode of a file completes, its
  \<^verbatim>\<open>onload\<close> callback appends one entry. A \<open>loaded_file\<close> is one such completion:
  the file's index in the selection, its type and name, the data URL, the decoded
  image, and the value \<^verbatim>\<open>Date.now()\<close> returns when the entry is built. Completions
  arrive in any order; \<open>handleImageUpload\<close> takes them in the order of arrival.
\<close>

record 'i loaded_file =
  file_index :: int
  file_type :: string
  file_name :: string
  data_url :: string
  decoded :: 'i
  date_now :: int

definition startsWith :: "string \<Rightarrow> string \<Rightarrow> bool" where
  "startsWith s p = (take (length p) s = p)"

definition image_onload :: "'i loaded_file \<Rightarrow> 'i app_state \<Rightarrow> 'i app_state" where
  "image_onload f st =
     st\<lparr>images := images st @
        [\<lparr>img_id = date_now f + file_index f, src = data_url f, image_el = decoded f,
          name = file_name f, position = int (length (images st))\<rparr>]\<rparr>"

definition handleImageUpload :: "'i loaded_file list \<Rightarrow> 'i app_state \<Rightarrow> 'i app_state" where
  "handleImageUpload completions st =
     foldl (\<lambda>s f. if startsWith (file_type f) ''image/'' then image_onload f s else s)
       st completions"

section \<open>The canvas\<close>

text \<open>
  The part of the HTML canvas that \<^verbatim>\<open>drawCanvas\<close> uses. A canvas has its buffer size,
  its CSS size in pixels, the state of its 2D context (the scale of the current
  transformation, stroke style, line width, current point and path) and its bitmap.
  The bitmap is kept as the list of marks painted since it was last reset, in device
  coordinates and in painting order. Assigning \<^verbatim>\<open>width\<close> or \<^verbatim>\<open>height\<close> resets the
  context and clears the bitmap, as the HTML standard says.

  \<^verbatim>\<open>width\<close> and \<^verbatim>\<open>height\<close> of the element are \<^verbatim>\<open>unsigned long\<close> attributes limited to
  non-negative numbers: the number assigned is reduced modulo \<open>2 ^ 32\<close>, and a result
  above \<open>2147483647\<close> is replaced by the default, 300 for the width and 150 for the height
  (\<open>reflect_size\<close>). So a negative size is never held. \<open>style_width\<close> and \<open>style_height\<close>
  are the lengths in pixels that the code last assigned to \<^verbatim>\<open>canvas.style\<close>; they are the
  CSS size of the element when they are not negative (a browser disregards the
  assignment of a negative length).
\<close>

datatype 'i mark =
  Erase int int int int
  | Ink string int int "int \<times> int" "int \<times> int"
  | Pic 'i int int int int

record 'i canvas =
  canvas_width :: int
  canvas_height :: int
  style_width :: int
  style_height :: int
  has_2d :: bool
  scale_x :: int
  scale_y :: int
  strokeStyle :: string
  lineWidth :: int
  pen :: "(int \<times> int) option"
  path :: "((int \<times> int) \<times> (int \<times> int)) list"
  bitmap :: "'i mark list"

definition reset_context :: "'i canvas \<Rightarrow> 'i canvas" where
  "reset_context c =
     c\<lparr>scale_x := 1, scale_y := 1, strokeStyle := ''#000000'', lineWidth := 1,
       pen := None, path := [], bitmap := []\<rparr>"

definition reflect_size :: "int \<Rightarrow> int \<Rightarrow> int" where
  "reflect_size dflt v = (let u = v mod 2 ^ 32 in if u \<le> 2147483647 then u else dflt)"

definition set_width :: "int \<Rightarrow> 'i canvas \<Rightarrow> 'i canvas" where
  "set_width w c = reset_context (c\<lparr>canvas_width := reflect_size 300 w\<rparr>)"

definition set_height :: "int \<Rightarrow> 'i canvas \<Rightarrow> 'i canvas" where
  "set_height h c = reset_context (c\<lparr>canvas_height := reflect_size 150 h\<rparr>)"

definition ctx_scale :: "int \<Rightarrow> int \<Rightarrow> 'i canvas \<Rightarrow> 'i canvas" where
  "ctx_scale sx sy c = c\<lparr>scale_x := scale_x c * sx, scale_y := scale_y c * sy\<rparr>"

definition ctx_clearRect :: "int \<Rightarrow> int \<Rightarrow> int \<Rightarrow> int \<Rightarrow> 'i canvas \<Rightarrow> 'i canvas" where
  "ctx_clearRect x y w h c =
     c\<lparr>bitmap := bitmap c @
        [Erase (x * scale_x c) (y * scale_y c) (w * scale_x c) (h * scale_y c)]\<rparr>"

definition ctx_beginPath :: "'i canvas \<Rightarrow> 'i canvas" where
  "ctx_beginPath c = c\<lparr>pen := None, path := []\<rparr>"

definition ctx_moveTo :: "int \<Rightarrow> int \<Rightarrow> 'i canvas \<Rightarrow> 'i canvas" where
  "ctx_moveTo x y c = c\<lparr>pen := Some (x * scale_x c, y * scale_y c)\<rparr>"

definition ctx_lineTo :: "int \<Rightarrow> int \<Rightarrow> 'i canvas \<Rightarrow> 'i canvas" where
  "ctx_lineTo x y c =
     (let q = (x * scale_x c, y * scale_y c) in
      case pen c of
        None \<Rightarrow> c\<lparr>pen := Some q\<rparr>
      | Some p \<Rightarrow> c\<lparr>pen := Some q, path := path c @ [(p, q)]\<rparr>)"

definition ctx_stroke :: "'i canvas \<Rightarrow> 'i canvas" where
  "ctx_stroke c =
     c\<lparr>bitmap := bitmap c @
        map (\<lambda>(p, q). Ink (strokeStyle c) (lineWidth c * scale_x c) (lineWidth c * scale_y c) p q)
          (path c)\<rparr>"

definition ctx_drawImage :: "'i \<Rightarrow> int \<Rightarrow> int \<Rightarrow> int \<Rightarrow> int \<Rightarrow> 'i canvas \<Rightarrow> 'i canvas" where
  "ctx_drawImage img dx dy dw dh c =
     c\<lparr>bitmap := bitmap c @
        [Pic img (dx * scale_x c) (dy * scale_y c) (dw * scale_x c) (dh * scale_y c)]\<rparr>"

subsection \<open>What a pixel shows\<close>

text \<open>
  \<open>in_span X x w\<close>: the pixel column \<open>X\<close> lies in the span that starts at \<open>x\<close> and has
  extent \<open>w\<close> (an extent may be negative). A rectangle mark covers the pixels of both
  its spans. A stroked segment parallel to an axis covers the pixels within half the
  line width on either side of it, between its end points (butt caps); the renderer
  strokes no other segment, and none is rasterised here.
\<close>

definition in_span :: "int \<Rightarrow> int \<Rightarrow> int \<Rightarrow> bool" where
  "in_span X x w = (min x (x + w) \<le> X \<and> X < max x (x + w))"

fun covers :: "int \<times> int \<Rightarrow> 'i mark \<Rightarrow> bool" where
  "covers (X, Y) (Erase x y w h) = (in_span X x w \<and> in_span Y y h)"
| "covers (X, Y) (Pic img x y w h) = (in_span X x w \<and> in_span Y y h)"
| "covers (X, Y) (Ink style wx wy (x1, y1) (x2, y2)) =
     (if x1 = x2 then
        2 * x1 - wx \<le> 2 * X \<and> 2 * X + 2 \<le> 2 * x1 + wx \<and> min y1 y2 \<le> Y \<and> Y < max y1 y2
      else if y1 = y2 then
        2 * y1 - wy \<le> 2 * Y \<and> 2 * Y + 2 \<le> 2 * y1 + wy \<and> min x1 x2 \<le> X \<and> X < max x1 x2
      else False)"

text \<open>
  The marks a pixel shows, bottom first: a mark that covers the pixel is laid over
  what is there, and an erasure that covers it leaves nothing. The last mark is the
  one on top.
\<close>

definition paint :: "int \<times> int \<Rightarrow> 'i mark list \<Rightarrow> 'i mark \<Rightarrow> 'i mark list" where
  "paint px ls m =
     (if covers px m then (case m of Erase x y w h \<Rightarrow> [] | _ \<Rightarrow> ls @ [m]) else ls)"

definition layers_at :: "int \<times> int \<Rightarrow> 'i mark list \<Rightarrow> 'i mark list" where
  "layers_at px ms = foldl (paint px) [] ms"

text \<open>The buffer: what each pixel of the canvas shows; \<open>None\<close> outside the canvas.\<close>

definition pixel :: "'i canvas \<Rightarrow> int \<times> int \<Rightarrow> 'i mark list option" where
  "pixel c px =
     (case px of (X, Y) \<Rightarrow>
        if 0 \<le> X \<and> X < canvas_width c \<and> 0 \<le> Y \<and> Y < canvas_height c
        then Some (layers_at px (bitmap c)) else None)"

section \<open>The renderer\<close>

text \<open>
  One iteration of \<^verbatim>\<open>images.forEach\<close>. \<^verbatim>\<open>Math.floor(position / cols)\<close> is the quotient
  rounded down, which is \<open>div\<close> on \<open>int\<close>; \<^verbatim>\<open>position % cols\<close> is \<open>js_rem\<close>. With \<open>cols = 0\<close> the
  column \<^verbatim>\<open>position % 0\<close> is \<^verbatim>\<open>NaN\<close>, the comparison with it is false, and nothing is drawn.
\<close>

definition draw_image_entry ::
  "GridSize \<Rightarrow> int \<Rightarrow> int \<Rightarrow> 'i canvas \<Rightarrow> 'i ImageData \<Rightarrow> 'i canvas" where
  "draw_image_entry gs cellWidth cellHeight c imgData =
     (if cols gs = 0 then c
      else let row = position imgData div cols gs;
               col = js_rem (position imgData) (cols gs)
           in if row < rows gs \<and> col < cols gs
              then ctx_drawImage (image_el imgData) (col * cellWidth) (row * cellHeight)
                     cellWidth cellHeight c
              else c)"

text \<open>
  \<^verbatim>\<open>drawCanvas\<close>. The argument is \<^verbatim>\<open>canvasRef.current\<close>, \<open>None\<close> for \<^verbatim>\<open>null\<close>; the result is
  the canvas after the call. Both early returns leave everything as it is.
\<close>

definition drawCanvas :: "'i app_state \<Rightarrow> 'i canvas option \<Rightarrow> 'i canvas option" where
  "drawCanvas st canvasRef =
     (case canvasRef of
        None \<Rightarrow> None
      | Some canvas \<Rightarrow>
          if \<not> has_2d canvas then Some canvas
          else
            let cellWidth = width (cellDimensions st);
                cellHeight = height (cellDimensions st);
                totalWidth = cols (gridSize st) * cellWidth;
                totalHeight = rows (gridSize st) * cellHeight;
                devicePixelRatio = 2;
                c1 = set_width (totalWidth * devicePixelRatio) canvas;
                c2 = set_height (totalHeight * devicePixelRatio) c1;
                c3 = c2\<lparr>style_width := totalWidth, style_height := totalHeight\<rparr>;
                c4 = ctx_scale devicePixelRatio devicePixelRatio c3;
                c5 = ctx_clearRect 0 0 totalWidth totalHeight c4;
                c6 = c5\<lparr>strokeStyle := ''#ccc'', lineWidth := 2\<rparr>;
                c7 = foldl (\<lambda>c i. ctx_stroke (ctx_lineTo (i * cellWidth) totalHeight
                                 (ctx_moveTo (i * cellWidth) 0 (ctx_beginPath c))))
                       c6 [0..cols (gridSize st)];
                c8 = foldl (\<lambda>c i. ctx_stroke (ctx_lineTo totalWidth (i * cellHeight)
                                 (ctx_moveTo 0 (i * cellHeight) (ctx_beginPath c))))
                       c7 [0..rows (gridSize st)]
            in Some (foldl (draw_image_entry (gridSize st) cellWidth cellHeight) c8 (images st)))"


section \<open>Notions used in the statements and proofs\<close>

text \<open>
  The guard of \<^verbatim>\<open>images.forEach\<close> and the mark its \<^verbatim>\<open>drawImage\<close> leaves under the
  scale 2 that \<^verbatim>\<open>drawCanvas\<close> sets.
\<close>

definition drawn :: "GridSize \<Rightarrow> 'i ImageData \<Rightarrow> bool" where
  "drawn gs e =
     (cols gs \<noteq> 0 \<and> position e div cols gs < rows gs \<and> js_rem (position e) (cols gs) < cols gs)"

definition entry_pic :: "GridSize \<Rightarrow> int \<Rightarrow> int \<Rightarrow> 'i ImageData \<Rightarrow> 'i mark" where
  "entry_pic gs cw ch e =
     Pic (image_el e) (js_rem (position e) (cols gs) * cw * 2) (position e div cols gs * ch * 2)
       (cw * 2) (ch * 2)"

text \<open>
  The canvas as \<^verbatim>\<open>drawCanvas\<close> has it after the two assignments of the buffer size and
  of the CSS size, and after the grid lines.
\<close>

definition blank_canvas :: "int \<Rightarrow> int \<Rightarrow> 'i canvas" where
  "blank_canvas tw th =
     \<lparr>canvas_width = reflect_size 300 (tw * 2), canvas_height = reflect_size 150 (th * 2),
      style_width = tw, style_height = th,
      has_2d = True, scale_x = 1, scale_y = 1, strokeStyle = ''#000000'', lineWidth = 1,
      pen = None, path = [], bitmap = []\<rparr>"

definition lined_canvas :: "GridSize \<Rightarrow> int \<Rightarrow> int \<Rightarrow> 'i canvas" where
  "lined_canvas gs cw ch =
     (let tw = cols gs * cw;
          th = rows gs * ch;
          c5 = ctx_clearRect 0 0 tw th (ctx_scale 2 2 (blank_canvas tw th));
          c6 = c5\<lparr>strokeStyle := ''#ccc'', lineWidth := 2\<rparr>;
          c7 = foldl (\<lambda>c i. ctx_stroke (ctx_lineTo (i * cw) th (ctx_moveTo (i * cw) 0 (ctx_beginPath c))))
                 c6 [0..cols gs]
      in foldl (\<lambda>c i. ctx_stroke (ctx_lineTo tw (i * ch) (ctx_moveTo 0 (i * ch) (ctx_beginPath c))))
           c7 [0..rows gs])"

section \<open>Facts about the number model\<close>

lemmas parseInt_defs = parseInt_def is_ws_def is_digit_def digit_of_def digits_value_def

lemma parseInt_examples:
  "parseInt ''-3'' = Some (- 3)"
  "parseInt ''0'' = Some 0"
  "parseInt '''' = None"
  "parseInt ''abc'' = None"
  "parseInt ''12px'' = Some 12"
  "parseInt ''0x1F'' = Some 31"
  by (simp_all add: parseInt_defs)

lemma js_rem_nonneg: "0 \<le> a \<Longrightarrow> 0 < b \<Longrightarrow> js_rem a b = a mod b"
  by (cases "a = 0") (simp_all add: js_rem_def)

lemma binade_lower:
  assumes "1 \<le> x"
  shows "2 powi binade x \<le> x"
proof -
  have pos: "0 < \<lfloor>x\<rfloor>" using assms by linarith
  have "2 ^ nat (bitlen \<lfloor>x\<rfloor> - 1) \<le> \<lfloor>x\<rfloor>"
    using bitlen_bounds [OF pos] by simp
  then have "(of_int (2 ^ nat (bitlen \<lfloor>x\<rfloor> - 1)) :: rat) \<le> of_int \<lfloor>x\<rfloor>"
    by (simp only: of_int_le_iff)
  also have "\<dots> \<le> x" by simp
  finally have le: "(2 :: rat) ^ nat (bitlen \<lfloor>x\<rfloor> - 1) \<le> x" by simp
  have "1 \<le> bitlen \<lfloor>x\<rfloor>"
    using pos bitlen_eq_zero_iff [of "\<lfloor>x\<rfloor>"] bitlen_nonneg [of "\<lfloor>x\<rfloor>"] by linarith
  then have "(2 :: rat) powi (bitlen \<lfloor>x\<rfloor> - 1) = 2 ^ nat (bitlen \<lfloor>x\<rfloor> - 1)"
    by (simp add: power_int_def)
  with le show ?thesis using assms by (simp add: binade_def)
qed

lemma binade_bounds:
  assumes "0 < x"
  shows "2 powi binade x \<le> x \<and> x < 2 powi (binade x + 1)"
proof (cases "1 \<le> x")
  case True
  have pos: "0 < \<lfloor>x\<rfloor>" using True by linarith
  have b1: "1 \<le> bitlen \<lfloor>x\<rfloor>"
    using pos bitlen_eq_zero_iff [of "\<lfloor>x\<rfloor>"] bitlen_nonneg [of "\<lfloor>x\<rfloor>"] by linarith
  have "\<lfloor>x\<rfloor> < 2 ^ nat (bitlen \<lfloor>x\<rfloor>)" using bitlen_bounds [OF pos] by simp
  then have "\<lfloor>x\<rfloor> + 1 \<le> 2 ^ nat (bitlen \<lfloor>x\<rfloor>)" by simp
  then have "(of_int (\<lfloor>x\<rfloor> + 1) :: rat) \<le> of_int (2 ^ nat (bitlen \<lfloor>x\<rfloor>))"
    by (simp only: of_int_le_iff)
  moreover have "x < of_int (\<lfloor>x\<rfloor> + 1)" by linarith
  ultimately have "x < 2 ^ nat (bitlen \<lfloor>x\<rfloor>)" by simp
  moreover have "(2 :: rat) powi (bitlen \<lfloor>x\<rfloor> - 1 + 1) = 2 ^ nat (bitlen \<lfloor>x\<rfloor>)"
    using b1 by (simp add: power_int_def)
  ultimately have "x < 2 powi (binade x + 1)" using True by (simp add: binade_def)
  then show ?thesis using binade_lower [OF True] by simp
next
  case False
  define y where "y = 1 / x"
  define n where "n = \<lceil>y\<rceil> - 1"
  have y: "1 < y" using False assms by (simp add: y_def)
  have n: "0 < n" "of_int n < y" "y \<le> of_int n + 1"
    using y unfolding n_def by linarith+
  have b1: "1 \<le> bitlen n"
    using n(1) bitlen_eq_zero_iff [of n] bitlen_nonneg [of n] by linarith
  have lo: "2 ^ nat (bitlen n - 1) \<le> n" and hi: "n < 2 ^ nat (bitlen n)"
    using bitlen_bounds [OF n(1)] by simp_all
  have "(of_int (2 ^ nat (bitlen n - 1)) :: rat) \<le> of_int n" using lo by (simp only: of_int_le_iff)
  then have "(2 :: rat) ^ nat (bitlen n - 1) \<le> of_int n"
    by (simp only: of_int_power of_int_numeral)
  then have ylo: "2 ^ nat (bitlen n - 1) < y" using n(2) by linarith
  have "n + 1 \<le> 2 ^ nat (bitlen n)" using hi by simp
  then have "(of_int (n + 1) :: rat) \<le> of_int (2 ^ nat (bitlen n))" by (simp only: of_int_le_iff)
  then have "of_int n + 1 \<le> (2 :: rat) ^ nat (bitlen n)"
    by (simp only: of_int_add of_int_1 of_int_power of_int_numeral)
  then have yhi: "y \<le> 2 ^ nat (bitlen n)" using n(3) by linarith
  have x: "x = 1 / y" using assms by (simp add: y_def)
  have e: "binade x = - bitlen n" using False by (simp add: binade_def n_def y_def)
  have p1: "(2 :: rat) powi (- bitlen n) = 1 / 2 ^ nat (bitlen n)"
    using b1 by (simp add: power_int_def field_simps)
  have p2: "(2 :: rat) powi (- bitlen n + 1) = 1 / 2 ^ nat (bitlen n - 1)"
    using b1 by (simp add: power_int_def field_simps)
  have "1 / 2 ^ nat (bitlen n) \<le> 1 / y"
    using yhi y by (intro divide_left_mono) simp_all
  moreover have "1 / y < 1 / 2 ^ nat (bitlen n - 1)"
    using ylo y by (intro divide_strict_left_mono) simp_all
  ultimately have "2 powi (- bitlen n) \<le> x \<and> x < 2 powi (- bitlen n + 1)"
    unfolding p1 p2 x by simp
  then show ?thesis by (simp only: e)
qed

lemma fl53_error:
  assumes "0 < x"
  shows "\<bar>fl53 x - x\<bar> \<le> 2 powi (binade x - 52) / 2"
proof -
  define q :: rat where "q = 2 powi (binade x - 52)"
  define m where "m = x / q"
  define f where "f = \<lfloor>m\<rfloor>"
  define n where "n = (if m - of_int f < 1 / 2 then f
                    else if 1 / 2 < m - of_int f then f + 1
                    else if even f then f else f + 1)"
  have qpos: "0 < q" by (simp add: q_def)
  have fl: "fl53 x = of_int n * q"
    using assms by (simp add: fl53_def Let_def q_def m_def f_def n_def)
  have "of_int f \<le> m" "m < of_int f + 1" unfolding f_def by linarith+
  then have "\<bar>of_int n - m\<bar> \<le> 1 / 2"
    by (auto simp: n_def)
  then have "\<bar>of_int n - m\<bar> * q \<le> 1 / 2 * q"
    using qpos by (intro mult_right_mono) auto
  moreover have "\<bar>of_int n - m\<bar> * q = \<bar>of_int n * q - x\<bar>"
  proof -
    have "x = m * q" using qpos by (simp add: m_def)
    then have "of_int n * q - x = (of_int n - m) * q" by (simp add: algebra_simps)
    then show ?thesis using qpos by (simp add: abs_mult)
  qed
  ultimately have "\<bar>of_int n * q - x\<bar> \<le> q / 2" by linarith
  then show ?thesis unfolding fl q_def .
qed

lemma fl53_rel_error:
  assumes "1 \<le> x"
  shows "\<bar>fl53 x - x\<bar> \<le> x / 2 ^ 53"
proof -
  have "(2 :: rat) powi (binade x - 52) / 2 = 2 powi binade x / 2 ^ 53"
    by (simp add: power_int_diff)
  also have "\<dots> \<le> x / 2 ^ 53"
    using binade_lower [OF assms] by (simp add: divide_right_mono)
  finally show ?thesis
    using fl53_error [of x] assms by linarith
qed

lemma fl53_nonneg:
  assumes "0 \<le> x"
  shows "0 \<le> fl53 x"
proof (cases "x = 0")
  case True
  then show ?thesis by (simp add: fl53_def)
next
  case False
  with assms have x: "0 < x" by simp
  define q :: rat where "q = 2 powi (binade x - 52)"
  have q: "0 < q" by (simp add: q_def)
  have m: "0 \<le> \<lfloor>x / q\<rfloor>" using x q by simp
  show ?thesis
    using x q m by (simp add: fl53_def Let_def q_def [symmetric])
qed

text \<open>
  The constant: \<^verbatim>\<open>7/5\<close> in double arithmetic is the double \<open>0x3FF6666666666666\<close>, a little
  below \<open>7/5\<close>.
\<close>

lemma bitlen_1: "bitlen 1 = 1"
  by (subst compute_bitlen) simp

lemma binade_7_5: "binade (7 / 5) = 0"
proof -
  have "\<lfloor>7 / 5 :: rat\<rfloor> = 1" by (rule floor_unique) simp_all
  then show ?thesis by (simp add: binade_def bitlen_1)
qed

lemma MTG_RATIO_value: "MTG_RATIO = 6305039478318694 / 2 ^ 52"
proof -
  have q: "(2 :: rat) powi (- 52) = 1 / 2 ^ 52" by (simp add: power_int_minus field_simps)
  have f: "\<lfloor>31525197391593472 / 5 :: rat\<rfloor> = 6305039478318694"
    by (rule floor_unique) simp_all
  show ?thesis
    unfolding MTG_RATIO_def fl53_def Let_def
    by (simp add: binade_7_5 q f del: power_int_minus)
qed

lemma MTG_RATIO_close: "\<bar>MTG_RATIO - 7 / 5\<bar> \<le> (7 / 5) / 2 ^ 53"
  unfolding MTG_RATIO_def by (rule fl53_rel_error) simp

lemma MTG_RATIO_nonneg: "0 \<le> MTG_RATIO"
  unfolding MTG_RATIO_def by (rule fl53_nonneg) simp

text \<open>
  The product \<open>w * MTG_RATIO\<close> is rounded twice, once in the constant and once in the
  multiplication. Both errors together stay far below \<open>1/10\<close>, and \<open>7 * w / 5\<close> is never
  closer than \<open>1/10\<close> to a half-integer, so \<^verbatim>\<open>Math.round\<close> lands on the integer that exact
  arithmetic gives.
\<close>

lemma round_near_fifths:
  fixes y :: rat and w :: int
  assumes "\<bar>y - 7 * of_int w / 5\<bar> < 1 / 10"
  shows "\<lfloor>y + 1 / 2\<rfloor> = (14 * w + 5) div 10"
proof -
  define k where "k = (14 * w + 5) div 10"
  define r where "r = (14 * w + 5) mod 10"
  have kr: "14 * w + 5 = 10 * k + r" by (simp add: k_def r_def)
  have "odd r"
  proof -
    have "odd (14 * w + 5)" by simp
    then show ?thesis unfolding kr by simp
  qed
  moreover have "0 \<le> r" "r < 10" by (simp_all add: r_def)
  ultimately have r: "1 \<le> r" "r \<le> 9"
    by presburger+
  have "(of_int (14 * w + 5) :: rat) = of_int (10 * k + r)" by (simp only: kr)
  then have eq: "7 * of_int w / 5 + 1 / 2 = (of_int k :: rat) + of_int r / 10"
    by (simp add: field_simps)
  have r1: "(1 :: rat) \<le> of_int r" "(of_int r :: rat) \<le> 9"
    using r by simp_all
  show ?thesis unfolding k_def [symmetric]
  proof (rule floor_unique)
    show "of_int k \<le> y + 1 / 2" using assms eq r1 by linarith
    show "y + 1 / 2 < of_int k + 1" using assms eq r1 by linarith
  qed
qed

lemma customHeight_eq:
  assumes "1 \<le> w" "w \<le> 2 ^ 40"
  shows "customHeight w = (14 * w + 5) div 10"
proof -
  define W :: rat where "W = of_int w"
  define x where "x = W * MTG_RATIO"
  have W: "1 \<le> W" "W \<le> 2 ^ 40"
    using assms by (simp_all add: W_def of_int_le_iff [where 'a = rat, of w "2 ^ 40", simplified])
  have r: "\<bar>MTG_RATIO - 7 / 5\<bar> \<le> 1 / 5" 
    using MTG_RATIO_close by simp
  have "W * \<bar>MTG_RATIO - 7 / 5\<bar> \<le> W * ((7 / 5) / 2 ^ 53)"
    using MTG_RATIO_close W by (intro mult_left_mono) simp_all
  moreover have "x - 7 * W / 5 = W * (MTG_RATIO - 7 / 5)"
    by (simp add: x_def algebra_simps)
  then have "\<bar>x - 7 * W / 5\<bar> = W * \<bar>MTG_RATIO - 7 / 5\<bar>"
    using W by (simp add: abs_mult)
  ultimately have d1: "\<bar>x - 7 * W / 5\<bar> \<le> W * ((7 / 5) / 2 ^ 53)"
    by linarith
  have b: "6 / 5 \<le> MTG_RATIO" "MTG_RATIO \<le> 8 / 5" using r by linarith+
  have "W * (6 / 5) \<le> W * MTG_RATIO" using W b by (intro mult_left_mono) linarith+
  moreover have "W * MTG_RATIO \<le> W * (8 / 5)" using W b by (intro mult_left_mono) linarith+
  ultimately have x: "1 \<le> x" "x \<le> 2 * W" unfolding x_def using W by linarith+
  have "\<bar>fl53 x - x\<bar> \<le> x / 2 ^ 53" using x by (intro fl53_rel_error)
  also have "\<dots> \<le> 2 * W / 2 ^ 53" using x by (simp add: divide_right_mono)
  finally have d2: "\<bar>fl53 x - x\<bar> \<le> 2 * W / 2 ^ 53" .
  have "\<bar>fl53 x - 7 * W / 5\<bar> \<le> \<bar>fl53 x - x\<bar> + \<bar>x - 7 * W / 5\<bar>" by simp
  also have "\<dots> \<le> 2 * W / 2 ^ 53 + W * ((7 / 5) / 2 ^ 53)" using d1 d2 by simp
  also have "\<dots> \<le> 4 * W / 2 ^ 53" using W by simp
  also have "\<dots> \<le> 4 * 2 ^ 40 / 2 ^ 53" using W by simp
  also have "\<dots> < 1 / 10" by simp
  finally have "\<bar>fl53 x - 7 * of_int w / 5\<bar> < 1 / 10" by (simp add: W_def)
  then show ?thesis
    by (simp add: customHeight_def Math_round_def x_def W_def round_near_fifths)
qed

lemma customHeight_nonneg:
  assumes "0 \<le> w"
  shows "0 \<le> customHeight w"
proof -
  have "0 \<le> of_int w * MTG_RATIO" using assms MTG_RATIO_nonneg by simp
  then have "0 \<le> fl53 (of_int w * MTG_RATIO)" by (rule fl53_nonneg)
  then show ?thesis by (simp add: customHeight_def Math_round_def)
qed

lemma customHeight_pos:
  assumes "1 \<le> w" "w \<le> 2 ^ 40"
  shows "1 \<le> customHeight w"
  using assms by (simp add: customHeight_eq) 

section \<open>Facts about the handlers\<close>

lemma position_input:
  "images (handlePositionChange i v st) =
     map (\<lambda>img. if img_id img = i
                 then img\<lparr>position := (case parseInt v of None \<Rightarrow> 0 | Some n \<Rightarrow> n - 1)\<rparr> else img)
       (images st)"
  by (simp add: handlePositionChange_def moveImage_def js_or_def split: option.splits)

lemma grid_input:
  "rows (gridSize (handleGridRowsChange v st)) =
     (case parseInt v of None \<Rightarrow> 1 | Some n \<Rightarrow> if n = 0 then 1 else n)"
  "cols (gridSize (handleGridColsChange v st)) =
     (case parseInt v of None \<Rightarrow> 1 | Some n \<Rightarrow> if n = 0 then 1 else n)"
  by (simp_all add: handleGridRowsChange_def handleGridColsChange_def js_or_def split: option.splits)

text \<open>No handler changes the id of an entry; removal and upload keep the other entries.\<close>

lemma ids_stable:
  "map img_id (images (moveImage i p st)) = map img_id (images st)"
  "map img_id (images (handlePositionChange i v st)) = map img_id (images st)"
  "map img_id (images (autoArrange st)) = map img_id (images st)"
  "images (removeImage i st) = filter (\<lambda>e. img_id e \<noteq> i) (images st)"
  "take (length (images st)) (images (image_onload f st)) = images st"
proof -
  show m: "map img_id (images (moveImage i p st)) = map img_id (images st)" for i p
    by (simp add: moveImage_def comp_def if_distrib cong: if_cong)
  show "map img_id (images (handlePositionChange i v st)) = map img_id (images st)"
    by (simp add: handlePositionChange_def m)
  show "map img_id (images (autoArrange st)) = map img_id (images st)"
    by (auto simp: autoArrange_def intro!: nth_equalityI simp: nth_enumerate_eq)
  show "images (removeImage i st) = filter (\<lambda>e. img_id e \<noteq> i) (images st)"
    by (simp add: removeImage_def)
  show "take (length (images st)) (images (image_onload f st)) = images st"
    by (simp add: image_onload_def)
qed

section \<open>Facts about the renderer\<close>

lemma foldl_keeps:
  assumes "\<And>c x. g (f c x) = g c"
  shows "g (foldl f c xs) = g c"
  by (induction xs arbitrary: c) (simp_all add: assms)

lemmas ctx_defs = ctx_scale_def ctx_clearRect_def ctx_beginPath_def ctx_moveTo_def
  ctx_lineTo_def ctx_stroke_def ctx_drawImage_def

lemma line_step_keeps:
  "canvas_width (ctx_stroke (ctx_lineTo a b (ctx_moveTo a' b' (ctx_beginPath c)))) = canvas_width c"
  "canvas_height (ctx_stroke (ctx_lineTo a b (ctx_moveTo a' b' (ctx_beginPath c)))) = canvas_height c"
  "style_width (ctx_stroke (ctx_lineTo a b (ctx_moveTo a' b' (ctx_beginPath c)))) = style_width c"
  "style_height (ctx_stroke (ctx_lineTo a b (ctx_moveTo a' b' (ctx_beginPath c)))) = style_height c"
  "has_2d (ctx_stroke (ctx_lineTo a b (ctx_moveTo a' b' (ctx_beginPath c)))) = has_2d c"
  "scale_x (ctx_stroke (ctx_lineTo a b (ctx_moveTo a' b' (ctx_beginPath c)))) = scale_x c"
  "scale_y (ctx_stroke (ctx_lineTo a b (ctx_moveTo a' b' (ctx_beginPath c)))) = scale_y c"
  by (simp_all add: ctx_defs Let_def)

lemma reflect_size_in_range:
  "0 \<le> v \<Longrightarrow> v \<le> 2147483647 \<Longrightarrow> reflect_size dflt v = v"
  by (simp add: reflect_size_def)

lemma reflect_size_examples:
  "reflect_size 300 (- 1800) = 300"
  "reflect_size 150 5880 = 5880"
  "reflect_size 300 4294967296 = 0"
  by (simp_all add: reflect_size_def)

lemma lined_canvas_fields:
  "canvas_width (lined_canvas gs cw ch :: 'i canvas) = reflect_size 300 (cols gs * cw * 2)"
  "canvas_height (lined_canvas gs cw ch :: 'i canvas) = reflect_size 150 (rows gs * ch * 2)"
  "style_width (lined_canvas gs cw ch :: 'i canvas) = cols gs * cw"
  "style_height (lined_canvas gs cw ch :: 'i canvas) = rows gs * ch"
  "has_2d (lined_canvas gs cw ch :: 'i canvas)"
  "scale_x (lined_canvas gs cw ch :: 'i canvas) = 2"
  "scale_y (lined_canvas gs cw ch :: 'i canvas) = 2"
  by (simp_all add: lined_canvas_def Let_def foldl_keeps line_step_keeps
      ctx_scale_def ctx_clearRect_def blank_canvas_def)

lemma entry_keeps:
  "canvas_width (draw_image_entry gs cw ch c e) = canvas_width c"
  "canvas_height (draw_image_entry gs cw ch c e) = canvas_height c"
  "style_width (draw_image_entry gs cw ch c e) = style_width c"
  "style_height (draw_image_entry gs cw ch c e) = style_height c"
  "has_2d (draw_image_entry gs cw ch c e) = has_2d c"
  "scale_x (draw_image_entry gs cw ch c e) = scale_x c"
  "scale_y (draw_image_entry gs cw ch c e) = scale_y c"
  by (simp_all add: draw_image_entry_def ctx_drawImage_def Let_def)

lemma sized_blank:
  assumes "has_2d canvas"
  shows "(set_height (th * 2) (set_width (tw * 2) canvas))\<lparr>style_width := tw, style_height := th\<rparr>
         = blank_canvas tw th"
  using assms by (cases canvas) (simp add: set_height_def set_width_def reset_context_def blank_canvas_def)

text \<open>
  With a 2D context, \<^verbatim>\<open>drawCanvas\<close> is the fold of the image step over the list, started on
  the canvas that carries the grid lines.
\<close>

lemma drawCanvas_unfold:
  assumes "has_2d canvas"
  shows "drawCanvas st (Some canvas) =
         Some (foldl (draw_image_entry (gridSize st) (customWidth st) (customHeight (customWidth st)))
                 (lined_canvas (gridSize st) (customWidth st) (customHeight (customWidth st)))
                 (images st))"
  using assms
  by (simp add: drawCanvas_def Let_def lined_canvas_def cellDimensions_def
      getActualCellDimensions_def sized_blank)

lemma entry_bitmap:
  "bitmap (draw_image_entry gs cw ch c e) =
     bitmap c @ (if drawn gs e then
        [Pic (image_el e) (js_rem (position e) (cols gs) * cw * scale_x c) (position e div cols gs * ch * scale_y c)
       (cw * scale_x c) (ch * scale_y c)] else [])"
  by (simp add: draw_image_entry_def ctx_drawImage_def Let_def drawn_def)

lemma layers_snoc: "layers_at px (ms @ [m]) = paint px (layers_at px ms) m"
  by (simp add: layers_at_def)

lemma layers_images:
  assumes "scale_x c = 2" "scale_y c = 2"
  shows "layers_at px (bitmap (foldl (draw_image_entry gs cw ch) c es)) =
         layers_at px (bitmap c) @
         map (entry_pic gs cw ch) (filter (\<lambda>e. drawn gs e \<and> covers px (entry_pic gs cw ch e)) es)"
proof (induction es rule: rev_induct)
  case Nil
  show ?case by simp
next
  case (snoc e es)
  let ?c = "foldl (draw_image_entry gs cw ch) c es"
  have sc: "scale_x ?c = 2" "scale_y ?c = 2"
    using assms by (simp_all add: foldl_keeps entry_keeps)
  show ?case
    using snoc sc
    by (simp add: entry_bitmap layers_snoc paint_def entry_pic_def)
qed

lemma bitmap_images:
  assumes "scale_x c = 2" "scale_y c = 2"
  shows "bitmap (foldl (draw_image_entry gs cw ch) c es) =
         bitmap c @ map (entry_pic gs cw ch) (filter (drawn gs) es)"
proof (induction es rule: rev_induct)
  case Nil
  show ?case by simp
next
  case (snoc e es)
  let ?c = "foldl (draw_image_entry gs cw ch) c es"
  have sc: "scale_x ?c = 2" "scale_y ?c = 2"
    using assms by (simp_all add: foldl_keeps entry_keeps)
  show ?case
    using snoc sc by (simp add: entry_bitmap entry_pic_def)
qed

lemma layers_render:
  "layers_at px (bitmap (foldl (draw_image_entry gs cw ch) (lined_canvas gs cw ch) es)) =
     layers_at px (bitmap (lined_canvas gs cw ch :: 'i canvas)) @
     map (entry_pic gs cw ch) (filter (\<lambda>e. drawn gs e \<and> covers px (entry_pic gs cw ch e)) es)"
  by (simp add: lined_canvas_fields layers_images)

lemma pixel_render:
  "pixel (foldl (draw_image_entry gs cw ch) (lined_canvas gs cw ch) es) (X, Y) =
     (if 0 \<le> X \<and> X < reflect_size 300 (cols gs * cw * 2)
         \<and> 0 \<le> Y \<and> Y < reflect_size 150 (rows gs * ch * 2)
      then Some (layers_at (X, Y) (bitmap (lined_canvas gs cw ch :: 'i canvas)) @
                 map (entry_pic gs cw ch)
                   (filter (\<lambda>e. drawn gs e \<and> covers (X, Y) (entry_pic gs cw ch e)) es))
      else None)"
  by (simp add: pixel_def foldl_keeps entry_keeps lined_canvas_fields layers_images)

lemma in_span_pos: "0 \<le> w \<Longrightarrow> in_span X x w = (x \<le> X \<and> X < x + w)"
  by (auto simp: in_span_def)

lemma span_unique:
  fixes a b d X :: int
  assumes "0 < d" "a * d \<le> X" "X < a * d + d" "b * d \<le> X" "X < b * d + d"
  shows "a = b"
proof (rule ccontr)
  assume "a \<noteq> b"
  then consider "a + 1 \<le> b" | "b + 1 \<le> a" by linarith
  then show False
  proof cases
    case 1
    then have "(a + 1) * d \<le> b * d" using assms(1) by (intro mult_right_mono) simp_all
    then show False using assms by (simp add: algebra_simps)
  next
    case 2
    then have "(b + 1) * d \<le> a * d" using assms(1) by (intro mult_right_mono) simp_all
    then show False using assms by (simp add: algebra_simps)
  qed
qed

lemma hidden_entry:
  assumes gs: "1 \<le> rows gs" "1 \<le> cols gs" and ch: "0 \<le> ch"
    and out: "\<not> (0 \<le> position e div cols gs \<and> position e div cols gs < rows gs
                \<and> 0 \<le> position e mod cols gs \<and> position e mod cols gs < cols gs)"
    and Y: "0 \<le> Y"
  shows "\<not> (drawn gs e \<and> covers (X, Y) (entry_pic gs cw ch e))"
proof (cases "0 \<le> position e")
  case True
  then have "0 \<le> position e div cols gs" using gs by (simp add: pos_imp_zdiv_nonneg_iff)
  moreover have "0 \<le> position e mod cols gs" "position e mod cols gs < cols gs"
    using gs by simp_all
  ultimately have "\<not> position e div cols gs < rows gs" using out by simp
  then show ?thesis by (simp add: drawn_def)
next
  case False
  then have "position e div cols gs < 0" using gs by (simp add: div_neg_pos_less0)
  then have "position e div cols gs + 1 \<le> 0" by simp
  then have "(position e div cols gs + 1) * (ch * 2) \<le> 0"
    using ch by (simp add: mult_le_0_iff)
  then have "position e div cols gs * ch * 2 + ch * 2 \<le> 0" by (simp add: algebra_simps)
  then have "\<not> in_span Y (position e div cols gs * ch * 2) (ch * 2)"
    using Y ch by (simp add: in_span_pos)
  then show ?thesis by (simp add: entry_pic_def)
qed

lemma same_cell_iff:
  assumes grid: "0 \<le> r" "r < rows gs" "0 \<le> k" "k < cols gs"
    and dims: "0 < cw" "0 < ch"
    and X: "k * cw * 2 \<le> X" "X < (k + 1) * cw * 2"
    and Y: "r * ch * 2 \<le> Y" "Y < (r + 1) * ch * 2"
  shows "(drawn gs e \<and> covers (X, Y) (entry_pic gs cw ch e))
         = (position e div cols gs = r \<and> js_rem (position e) (cols gs) = k)"
proof
  assume a: "drawn gs e \<and> covers (X, Y) (entry_pic gs cw ch e)"
  then have sp: "js_rem (position e) (cols gs) * (cw * 2) \<le> X"
      "X < js_rem (position e) (cols gs) * (cw * 2) + cw * 2"
      "position e div cols gs * (ch * 2) \<le> Y"
      "Y < position e div cols gs * (ch * 2) + ch * 2"
    using dims by (simp_all add: entry_pic_def in_span_pos algebra_simps)
  have "js_rem (position e) (cols gs) = k"
    using span_unique [of "cw * 2" "js_rem (position e) (cols gs)" X k] sp dims X
    by (simp add: algebra_simps)
  moreover have "position e div cols gs = r"
    using span_unique [of "ch * 2" "position e div cols gs" Y r] sp dims Y
    by (simp add: algebra_simps)
  ultimately show "position e div cols gs = r \<and> js_rem (position e) (cols gs) = k" by simp
next
  assume a: "position e div cols gs = r \<and> js_rem (position e) (cols gs) = k"
  then show "drawn gs e \<and> covers (X, Y) (entry_pic gs cw ch e)"
    using grid dims X Y by (simp add: drawn_def entry_pic_def in_span_pos algebra_simps)
qed

section \<open>The claims\<close>

text \<open>
  Claim C1. For every image entry with integer position \<open>p\<close> and every grid with
  \<open>rows \<ge> 1\<close> and \<open>cols \<ge> 1\<close>, let \<open>row = \<lfloor>p / cols\<rfloor>\<close> and \<open>col = p mod cols\<close>.

  If both lie in the grid, \<open>0 \<le> row < rows\<close> and \<open>0 \<le> col < cols\<close>, the renderer draws the
  entry's image stretched to the cell rectangle. For an entry \<open>e\<close> of the list
  \<open>xs @ e # ys\<close> and a canvas with a 2D context, the bitmap that \<^verbatim>\<open>drawCanvas\<close> returns is
  the bitmap it returns for the entries \<open>xs\<close> before \<open>e\<close>, then the picture of \<open>e\<close> on the
  device rectangle of its cell (twice \<open>col * width\<close>, \<open>row * height\<close>, \<open>width\<close>, \<open>height\<close>), then
  what the later entries add. The step that adds it is the call
  \<^verbatim>\<open>drawImage(image, col*width, row*height, width, height)\<close>.

  If not, the entry is omitted from the rendered output: every pixel of the buffer shows
  what it shows when the entry is taken out of the list, and nothing fails. This holds for
  negative positions as well. There the guard of the source, which compares only with the
  upper bounds, lets the call through with the truncating remainder as column; the
  rectangle then lies wholly above the canvas and no pixel of the buffer is touched. The
  cell width is taken non-negative, as every width of the slider is.
\<close>

theorem render_entry_in_cell_or_absent:
  fixes st :: "'i app_state"
  assumes "1 \<le> rows (gridSize st)" "1 \<le> cols (gridSize st)" "0 \<le> customWidth st"
  shows "(0 \<le> position e div cols (gridSize st) \<and> position e div cols (gridSize st) < rows (gridSize st)
          \<and> 0 \<le> position e mod cols (gridSize st) \<and> position e mod cols (gridSize st) < cols (gridSize st)
          \<longrightarrow> (has_2d canvas \<longrightarrow>
                 (\<exists>c0 c1 c' ms. drawCanvas (st\<lparr>images := xs\<rparr>) (Some canvas) = Some c0
                    \<and> drawCanvas (st\<lparr>images := xs @ ys\<rparr>) (Some canvas) = Some c1
                    \<and> drawCanvas (st\<lparr>images := xs @ e # ys\<rparr>) (Some canvas) = Some c'
                    \<and> bitmap c1 = bitmap c0 @ ms
                    \<and> bitmap c' = bitmap c0 @
                        Pic (image_el e)
                          (position e mod cols (gridSize st) * customWidth st * 2)
                          (position e div cols (gridSize st) * customHeight (customWidth st) * 2)
                          (customWidth st * 2) (customHeight (customWidth st) * 2) # ms))
              \<and> draw_image_entry (gridSize st) (customWidth st) (customHeight (customWidth st)) c e
                = ctx_drawImage (image_el e)
                    (position e mod cols (gridSize st) * customWidth st)
                    (position e div cols (gridSize st) * customHeight (customWidth st))
                    (customWidth st) (customHeight (customWidth st)) c)
       \<and> (\<not> (0 \<le> position e div cols (gridSize st) \<and> position e div cols (gridSize st) < rows (gridSize st)
          \<and> 0 \<le> position e mod cols (gridSize st) \<and> position e mod cols (gridSize st) < cols (gridSize st))
          \<longrightarrow> map_option pixel (drawCanvas (st\<lparr>images := xs @ e # ys\<rparr>) canvasRef)
              = map_option pixel (drawCanvas (st\<lparr>images := xs @ ys\<rparr>) canvasRef))"
proof (intro conjI impI)
  let ?gs = "gridSize st"
  let ?cw = "customWidth st"
  let ?ch = "customHeight (customWidth st)"
  let ?L = "lined_canvas ?gs ?cw ?ch :: 'i canvas"
  assume inside: "0 \<le> position e div cols ?gs \<and> position e div cols ?gs < rows ?gs
          \<and> 0 \<le> position e mod cols ?gs \<and> position e mod cols ?gs < cols ?gs"
  then have "0 \<le> position e" using assms by (simp add: pos_imp_zdiv_nonneg_iff)
  then have rem: "js_rem (position e) (cols ?gs) = position e mod cols ?gs"
    using assms by (simp add: js_rem_nonneg)
  show "draw_image_entry ?gs ?cw ?ch c e
              = ctx_drawImage (image_el e)
                  (position e mod cols ?gs * ?cw) (position e div cols ?gs * ?ch) ?cw ?ch c"
    using inside assms rem by (simp add: draw_image_entry_def Let_def)
  assume ctx: "has_2d canvas"
  have d: "drawn ?gs e" using inside assms rem by (simp add: drawn_def)
  have r: "drawCanvas (st\<lparr>images := zs\<rparr>) (Some canvas)
           = Some (foldl (draw_image_entry ?gs ?cw ?ch) ?L zs)" for zs
    using ctx by (simp add: drawCanvas_unfold)
  have b: "bitmap (foldl (draw_image_entry ?gs ?cw ?ch) ?L zs)
           = bitmap ?L @ map (entry_pic ?gs ?cw ?ch) (filter (drawn ?gs) zs)" for zs
    by (simp add: bitmap_images lined_canvas_fields)
  let ?ms = "map (entry_pic ?gs ?cw ?ch) (filter (drawn ?gs) ys)"
  have "bitmap (foldl (draw_image_entry ?gs ?cw ?ch) ?L (xs @ e # ys))
        = bitmap (foldl (draw_image_entry ?gs ?cw ?ch) ?L xs) @
          Pic (image_el e) (position e mod cols ?gs * ?cw * 2) (position e div cols ?gs * ?ch * 2)
            (?cw * 2) (?ch * 2) # ?ms"
    using d rem by (simp add: b entry_pic_def del: foldl_append)
  moreover have "bitmap (foldl (draw_image_entry ?gs ?cw ?ch) ?L (xs @ ys))
        = bitmap (foldl (draw_image_entry ?gs ?cw ?ch) ?L xs) @ ?ms"
    by (simp add: b del: foldl_append)
  ultimately show "\<exists>c0 c1 c' ms. drawCanvas (st\<lparr>images := xs\<rparr>) (Some canvas) = Some c0
                    \<and> drawCanvas (st\<lparr>images := xs @ ys\<rparr>) (Some canvas) = Some c1
                    \<and> drawCanvas (st\<lparr>images := xs @ e # ys\<rparr>) (Some canvas) = Some c'
                    \<and> bitmap c1 = bitmap c0 @ ms
                    \<and> bitmap c' = bitmap c0 @
                        Pic (image_el e) (position e mod cols ?gs * ?cw * 2)
                          (position e div cols ?gs * ?ch * 2) (?cw * 2) (?ch * 2) # ms"
    using r by blast
next
  let ?gs = "gridSize st"
  let ?cw = "customWidth st"
  let ?ch = "customHeight (customWidth st)"
  assume out: "\<not> (0 \<le> position e div cols ?gs \<and> position e div cols ?gs < rows ?gs
          \<and> 0 \<le> position e mod cols ?gs \<and> position e mod cols ?gs < cols ?gs)"
  have ch: "0 \<le> ?ch" using assms by (simp add: customHeight_nonneg)
  have px: "pixel (foldl (draw_image_entry ?gs ?cw ?ch) (lined_canvas ?gs ?cw ?ch) (xs @ e # ys)) p
          = pixel (foldl (draw_image_entry ?gs ?cw ?ch) (lined_canvas ?gs ?cw ?ch) (xs @ ys)) p" for p
  proof (cases p)
    case (Pair X Y)
    show ?thesis
      unfolding Pair pixel_render
      using hidden_entry [OF assms(1,2) ch out, of Y X ?cw] by auto
  qed
  show "map_option pixel (drawCanvas (st\<lparr>images := xs @ e # ys\<rparr>) canvasRef)
      = map_option pixel (drawCanvas (st\<lparr>images := xs @ ys\<rparr>) canvasRef)"
  proof (cases canvasRef)
    case None
    then show ?thesis by (simp add: drawCanvas_def)
  next
    case (Some canvas)
    show ?thesis
    proof (cases "has_2d canvas")
      case True
      then show ?thesis unfolding Some
        using px by (simp add: drawCanvas_unfold fun_eq_iff del: foldl_append)
    next
      case False
      then show ?thesis unfolding Some by (simp add: drawCanvas_def)
    qed
  qed
qed

theorem render_entry_in_cell_or_absent_witness:
  "(\<exists>c0 c' ms. drawCanvas ((initial_state :: nat app_state)\<lparr>images :=
            [\<lparr>img_id = 1, src = ''a'', image_el = 0, name = ''a.png'', position = 0\<rparr>]\<rparr>)
          (Some (blank_canvas 0 0)) = Some c0
      \<and> drawCanvas ((initial_state :: nat app_state)\<lparr>images :=
            [\<lparr>img_id = 1, src = ''a'', image_el = 0, name = ''a.png'', position = 0\<rparr>,
             \<lparr>img_id = 2, src = ''b'', image_el = 1, name = ''b.png'', position = 23\<rparr>,
             \<lparr>img_id = 3, src = ''c'', image_el = 2, name = ''c.png'', position = 70\<rparr>]\<rparr>)
          (Some (blank_canvas 0 0)) = Some c'
      \<and> bitmap c' = bitmap c0 @ Pic 1 1800 1680 600 840 # ms)
   \<and> draw_image_entry \<lparr>rows = 7, cols = 10\<rparr> 300 420 (blank_canvas 0 0)
       \<lparr>img_id = 2, src = ''b'', image_el = (1 :: nat), name = ''b.png'', position = 23\<rparr>
     = ctx_drawImage 1 900 840 300 420 (blank_canvas 0 0)
   \<and> map_option pixel (drawCanvas
         ((initial_state :: nat app_state)\<lparr>images :=
            [\<lparr>img_id = 1, src = ''a'', image_el = 0, name = ''a.png'', position = 23\<rparr>,
             \<lparr>img_id = 2, src = ''b'', image_el = 1, name = ''b.png'', position = - 1\<rparr>,
             \<lparr>img_id = 3, src = ''c'', image_el = 2, name = ''c.png'', position = 70\<rparr>]\<rparr>)
         (Some (blank_canvas 0 0)))
     = map_option pixel (drawCanvas
         ((initial_state :: nat app_state)\<lparr>images :=
            [\<lparr>img_id = 1, src = ''a'', image_el = 0, name = ''a.png'', position = 23\<rparr>,
             \<lparr>img_id = 3, src = ''c'', image_el = 2, name = ''c.png'', position = 70\<rparr>]\<rparr>)
         (Some (blank_canvas 0 0)))"
proof -
  have a: "\<exists>c0 c' ms. drawCanvas ((initial_state :: nat app_state)\<lparr>images :=
            [\<lparr>img_id = 1, src = ''a'', image_el = 0, name = ''a.png'', position = 0\<rparr>]\<rparr>)
          (Some (blank_canvas 0 0)) = Some c0
      \<and> drawCanvas ((initial_state :: nat app_state)\<lparr>images :=
            [\<lparr>img_id = 1, src = ''a'', image_el = 0, name = ''a.png'', position = 0\<rparr>,
             \<lparr>img_id = 2, src = ''b'', image_el = 1, name = ''b.png'', position = 23\<rparr>,
             \<lparr>img_id = 3, src = ''c'', image_el = 2, name = ''c.png'', position = 70\<rparr>]\<rparr>)
          (Some (blank_canvas 0 0)) = Some c'
      \<and> bitmap c' = bitmap c0 @ Pic 1 1800 1680 600 840 # ms"
    using render_entry_in_cell_or_absent [of "initial_state :: nat app_state"
      "\<lparr>img_id = 2, src = ''b'', image_el = 1, name = ''b.png'', position = 23\<rparr>"
      "blank_canvas 0 0"
      "[\<lparr>img_id = 1, src = ''a'', image_el = 0, name = ''a.png'', position = 0\<rparr>]"
      "[\<lparr>img_id = 3, src = ''c'', image_el = 2, name = ''c.png'', position = 70\<rparr>]"]
    by (simp add: initial_state_def customHeight_eq blank_canvas_def) blast
  have b: "draw_image_entry \<lparr>rows = 7, cols = 10\<rparr> 300 420 (blank_canvas 0 0)
       \<lparr>img_id = 2, src = ''b'', image_el = (1 :: nat), name = ''b.png'', position = 23\<rparr>
     = ctx_drawImage 1 900 840 300 420 (blank_canvas 0 0)"
    using render_entry_in_cell_or_absent [of "initial_state :: nat app_state"
      "\<lparr>img_id = 2, src = ''b'', image_el = 1, name = ''b.png'', position = 23\<rparr>"
      _ _ _ "blank_canvas 0 0"]
    by (simp add: initial_state_def customHeight_eq)
  have c: "map_option pixel (drawCanvas
         ((initial_state :: nat app_state)\<lparr>images :=
            [\<lparr>img_id = 1, src = ''a'', image_el = 0, name = ''a.png'', position = 23\<rparr>,
             \<lparr>img_id = 2, src = ''b'', image_el = 1, name = ''b.png'', position = - 1\<rparr>,
             \<lparr>img_id = 3, src = ''c'', image_el = 2, name = ''c.png'', position = 70\<rparr>]\<rparr>)
         (Some (blank_canvas 0 0)))
     = map_option pixel (drawCanvas
         ((initial_state :: nat app_state)\<lparr>images :=
            [\<lparr>img_id = 1, src = ''a'', image_el = 0, name = ''a.png'', position = 23\<rparr>,
             \<lparr>img_id = 3, src = ''c'', image_el = 2, name = ''c.png'', position = 70\<rparr>]\<rparr>)
         (Some (blank_canvas 0 0)))"
    using render_entry_in_cell_or_absent [of "initial_state :: nat app_state"
      "\<lparr>img_id = 2, src = ''b'', image_el = 1, name = ''b.png'', position = - 1\<rparr>"
      _
      "[\<lparr>img_id = 1, src = ''a'', image_el = 0, name = ''a.png'', position = 23\<rparr>]"
      "[\<lparr>img_id = 3, src = ''c'', image_el = 2, name = ''c.png'', position = 70\<rparr>]"
      _ "Some (blank_canvas 0 0)"]
    by (simp add: initial_state_def customHeight_eq)
  from a b c show ?thesis by blast
qed

text \<open>
  Claim C2. Every entry's position is a non-negative integer after every operation; the
  position field is 1-based (an input parsing to \<open>n\<close> stores \<open>n - 1\<close>) and input that is not
  a number stores 0.

  The conversion and the default are as claimed (lemma \<open>position_input\<close>). The position
  does not stay non-negative: the field is declared with \<^verbatim>\<open>min="1"\<close>, but the handler stores
  \<open>n - 1\<close> for every \<open>n\<close>, so the input \<^verbatim>\<open>"0"\<close> stores position \<open>- 1\<close>.
\<close>

theorem position_input_zero_goes_negative:
  "map position (images (handlePositionChange 7 ''0''
      ((initial_state :: nat app_state)\<lparr>images := [\<lparr>img_id = 7, src = ''a'', image_el = 0, name = ''a.png'', position = 0\<rparr>]\<rparr>)))
   = [- 1]"
  by (simp add: handlePositionChange_def moveImage_def js_or_def parseInt_defs)

text \<open>
  Claim C3. After every change of the rows or columns field the grid has \<open>rows \<ge> 1\<close> and
  \<open>cols \<ge> 1\<close>.

  Input that is not a number, and input parsing to 0, fall back to 1 (lemma
  \<open>grid_input\<close>). A negative number is kept as it is: both fields are declared with
  \<^verbatim>\<open>min="1"\<close>, but the handlers store \<open>- 3\<close> for the input \<^verbatim>\<open>"-3"\<close>.
\<close>

theorem grid_input_negative_is_kept:
  "rows (gridSize (handleGridRowsChange ''-3'' (initial_state :: nat app_state))) = - 3
   \<and> cols (gridSize (handleGridColsChange ''-3'' (initial_state :: nat app_state))) = - 3"
  by (simp add: handleGridRowsChange_def handleGridColsChange_def js_or_def parseInt_defs initial_state_def)

text \<open>
  Claim C4. For every integer cell width \<open>w\<close> from 200 to 600 the cell height, computed in
  double arithmetic as \<^verbatim>\<open>Math.round(w * (7/5))\<close>, equals \<open>round (w * 7 / 5)\<close> in exact rational
  arithmetic. The height is not stored: the cell dimensions of a state are computed from
  its width, so a state with width \<open>w\<close> has this height.
\<close>

theorem customHeight_is_rounded_seven_fifths:
  assumes "200 \<le> w" "w \<le> 600"
  shows "customHeight w = round (of_int w * 7 / 5 :: rat)
       \<and> height (cellDimensions (st\<lparr>customWidth := w\<rparr>)) = round (of_int w * 7 / 5 :: rat)"
  using assms round_near_fifths [of "7 * of_int w / 5" w]
  by (simp add: cellDimensions_def getActualCellDimensions_def customHeight_eq round_def mult.commute)

theorem customHeight_is_rounded_seven_fifths_witness:
  "(200 :: int) \<le> 300 \<and> (300 :: int) \<le> 600 \<and> customHeight 300 = 420
   \<and> height (cellDimensions ((initial_state :: nat app_state)\<lparr>customWidth := 300\<rparr>)) = 420"
  using customHeight_is_rounded_seven_fifths [of 300 "initial_state :: nat app_state"] by simp

text \<open>
  Claim C5. When several entries resolve to the same cell \<open>(r, k)\<close> of the grid, every
  pixel of that cell shows, on top, the image of the entry that comes last in the list
  among them, stretched to the cell. The pixel \<open>(X, Y)\<close> is a device pixel of the cell's
  rectangle; the buffer has two device pixels per unit. The marks laid on the pixel are
  \<open>ls\<close> whatever the size of the grid, and they are what the buffer shows there when
  the buffer has the size assigned, which it has up to \<open>2147483647\<close> pixels a side.
\<close>

theorem last_entry_on_top_in_shared_cell:
  fixes st :: "'i app_state"
  assumes ctx: "has_2d canvas"
    and w: "200 \<le> customWidth st" "customWidth st \<le> 600"
    and grid: "0 \<le> r" "r < rows (gridSize st)" "0 \<le> k" "k < cols (gridSize st)"
    and X: "k * customWidth st * 2 \<le> X" "X < (k + 1) * customWidth st * 2"
    and Y: "r * customHeight (customWidth st) * 2 \<le> Y" "Y < (r + 1) * customHeight (customWidth st) * 2"
    and es: "es = filter (\<lambda>e. position e div cols (gridSize st) = r
                              \<and> js_rem (position e) (cols (gridSize st)) = k) (images st)"
    and ne: "es \<noteq> []"
  shows "\<exists>c' ls. drawCanvas st (Some canvas) = Some c'
           \<and> layers_at (X, Y) (bitmap c') = ls \<and> ls \<noteq> []
           \<and> last ls = Pic (image_el (last es)) (k * customWidth st * 2)
                          (r * customHeight (customWidth st) * 2)
                          (customWidth st * 2) (customHeight (customWidth st) * 2)
           \<and> (cols (gridSize st) * customWidth st * 2 \<le> 2147483647
                \<and> rows (gridSize st) * customHeight (customWidth st) * 2 \<le> 2147483647
                \<longrightarrow> pixel c' (X, Y) = Some ls)"
proof -
  let ?gs = "gridSize st"
  let ?cw = "customWidth st"
  let ?ch = "customHeight (customWidth st)"
  have dims: "0 < ?cw" "0 < ?ch"
    using w customHeight_pos [of ?cw] by simp_all
  have "k * (?cw * 2) \<le> X" using X by (simp add: algebra_simps)
  moreover have "0 \<le> k * (?cw * 2)" using grid dims by simp
  ultimately have X0: "0 \<le> X" by linarith
  have "(k + 1) * (?cw * 2) \<le> cols ?gs * (?cw * 2)"
    using grid dims by (intro mult_right_mono) simp_all
  then have X1: "X < cols ?gs * ?cw * 2" using X by (simp add: algebra_simps)
  have "r * (?ch * 2) \<le> Y" using Y by (simp add: algebra_simps)
  moreover have "0 \<le> r * (?ch * 2)" using grid dims by simp
  ultimately have Y0: "0 \<le> Y" by linarith
  have "(r + 1) * (?ch * 2) \<le> rows ?gs * (?ch * 2)"
    using grid dims by (intro mult_right_mono) simp_all
  then have Y1: "Y < rows ?gs * ?ch * 2" using Y by (simp add: algebra_simps)
  have flt: "filter (\<lambda>e. drawn ?gs e \<and> covers (X, Y) (entry_pic ?gs ?cw ?ch e)) (images st) = es"
    by (simp add: es same_cell_iff [OF grid dims X Y])
  have "last es \<in> set es" using ne by simp
  then have le: "position (last es) div cols ?gs = r" "js_rem (position (last es)) (cols ?gs) = k"
    unfolding es by simp_all
  let ?c = "foldl (draw_image_entry ?gs ?cw ?ch) (lined_canvas ?gs ?cw ?ch) (images st)"
  let ?ls = "layers_at (X, Y) (bitmap (lined_canvas ?gs ?cw ?ch :: 'i canvas)) @ map (entry_pic ?gs ?cw ?ch) es"
  have "drawCanvas st (Some canvas) = Some ?c" using ctx by (rule drawCanvas_unfold)
  moreover have "layers_at (X, Y) (bitmap ?c) = ?ls"
    by (simp add: layers_render flt)
  moreover have "pixel ?c (X, Y) = Some ?ls"
    if "cols ?gs * ?cw * 2 \<le> 2147483647 \<and> rows ?gs * ?ch * 2 \<le> 2147483647"
  proof -
    have "0 \<le> cols ?gs * ?cw * 2" "0 \<le> rows ?gs * ?ch * 2"
      using X0 X1 Y0 Y1 by linarith+
    then show ?thesis
      using that X0 X1 Y0 Y1 by (simp add: pixel_render flt reflect_size_in_range)
  qed
  moreover have "?ls \<noteq> []" using ne by simp
  moreover have "last ?ls = Pic (image_el (last es)) (k * ?cw * 2) (r * ?ch * 2) (?cw * 2) (?ch * 2)"
    using ne le by (simp add: last_map entry_pic_def)
  ultimately show ?thesis by blast
qed

theorem last_entry_on_top_in_shared_cell_witness:
  "\<exists>c' ls. drawCanvas
       ((initial_state :: nat app_state)\<lparr>images :=
          [\<lparr>img_id = 1, src = ''a'', image_el = 1, name = ''a.png'', position = 5\<rparr>,
           \<lparr>img_id = 2, src = ''b'', image_el = 2, name = ''b.png'', position = 5\<rparr>]\<rparr>)
       (Some (blank_canvas 0 0)) = Some c'
     \<and> pixel c' (3000, 0) = Some ls \<and> ls \<noteq> [] \<and> last ls = Pic 2 3000 0 600 840"
  using last_entry_on_top_in_shared_cell [of "blank_canvas 0 0"
      "(initial_state :: nat app_state)\<lparr>images :=
          [\<lparr>img_id = 1, src = ''a'', image_el = 1, name = ''a.png'', position = 5\<rparr>,
           \<lparr>img_id = 2, src = ''b'', image_el = 2, name = ''b.png'', position = 5\<rparr>]\<rparr>"
      0 5 3000 0
      "[\<lparr>img_id = 1, src = ''a'', image_el = 1, name = ''a.png'', position = 5\<rparr>,
        \<lparr>img_id = 2, src = ''b'', image_el = 2, name = ''b.png'', position = 5\<rparr>]"]
  by (simp add: initial_state_def customHeight_eq blank_canvas_def js_rem_def) blast

text \<open>
  Claim C6. Auto-arrange gives the entries the positions \<open>0, 1, ..., N - 1\<close> in list order,
  whatever their positions were. It keeps the list order and every other field of every
  entry, leaves the grid and the width alone, and is defined on every state.
\<close>

theorem autoArrange_positions:
  "map position (images (autoArrange st)) = map int [0..<length (images st)]
   \<and> map (\<lambda>e. (img_id e, src e, image_el e, name e)) (images (autoArrange st))
     = map (\<lambda>e. (img_id e, src e, image_el e, name e)) (images st)
   \<and> gridSize (autoArrange st) = gridSize st
   \<and> customWidth (autoArrange st) = customWidth st"
  by (auto simp: autoArrange_def intro!: nth_equalityI simp: nth_enumerate_eq)

theorem autoArrange_positions_witness:
  "map position (images (autoArrange ((initial_state :: nat app_state)\<lparr>images :=
      [\<lparr>img_id = 1, src = ''a'', image_el = 1, name = ''a.png'', position = 40\<rparr>,
       \<lparr>img_id = 2, src = ''b'', image_el = 2, name = ''b.png'', position = - 3\<rparr>,
       \<lparr>img_id = 3, src = ''c'', image_el = 3, name = ''c.png'', position = 40\<rparr>]\<rparr>)))
   = [0, 1, 2]"
  using autoArrange_positions [of "(initial_state :: nat app_state)\<lparr>images :=
      [\<lparr>img_id = 1, src = ''a'', image_el = 1, name = ''a.png'', position = 40\<rparr>,
       \<lparr>img_id = 2, src = ''b'', image_el = 2, name = ''b.png'', position = - 3\<rparr>,
       \<lparr>img_id = 3, src = ''c'', image_el = 3, name = ''c.png'', position = 40\<rparr>]\<rparr>"]
  by (simp add: upt_rec)

text \<open>
  Claim C7. For a grid with \<open>rows \<ge> 1\<close> and \<open>cols \<ge> 1\<close> and a cell width \<open>w \<ge> 0\<close> with height
  \<open>h\<close>, the CSS size of the canvas after \<^verbatim>\<open>drawCanvas\<close> is \<open>cols * w\<close> by \<open>rows * h\<close>, and the
  size of its buffer is twice that in each dimension, as long as the buffer stays within
  the \<open>2147483647\<close> pixels a side that the element can hold. With 10 columns, 7 rows and
  width 300 the height is 420, the CSS size 3000 by 2940 and the buffer 6000 by 5880.
\<close>

theorem canvas_sizes:
  assumes "has_2d canvas"
    and "1 \<le> rows (gridSize st)" "1 \<le> cols (gridSize st)" "0 \<le> customWidth st"
    and "cols (gridSize st) * customWidth st * 2 \<le> 2147483647"
    and "rows (gridSize st) * customHeight (customWidth st) * 2 \<le> 2147483647"
  shows "\<exists>c'. drawCanvas st (Some canvas) = Some c'
           \<and> style_width c' = cols (gridSize st) * customWidth st
           \<and> style_height c' = rows (gridSize st) * customHeight (customWidth st)
           \<and> canvas_width c' = 2 * style_width c'
           \<and> canvas_height c' = 2 * style_height c'"
proof -
  have "0 \<le> customHeight (customWidth st)" using assms(4) by (rule customHeight_nonneg)
  then have "0 \<le> cols (gridSize st) * customWidth st * 2"
      "0 \<le> rows (gridSize st) * customHeight (customWidth st) * 2"
    using assms by simp_all
  then show ?thesis
    using assms
    by (simp add: drawCanvas_unfold foldl_keeps entry_keeps lined_canvas_fields
        reflect_size_in_range)
qed

theorem canvas_sizes_witness:
  "has_2d (blank_canvas 0 0 :: nat canvas)
   \<and> (\<exists>c'. drawCanvas (initial_state :: nat app_state) (Some (blank_canvas 0 0)) = Some c'
         \<and> style_width c' = 3000 \<and> style_height c' = 2940
         \<and> canvas_width c' = 6000 \<and> canvas_height c' = 5880)"
  using canvas_sizes [of "blank_canvas 0 0 :: nat canvas" "initial_state :: nat app_state"]
  by (auto simp: initial_state_def customHeight_eq blank_canvas_def)

text \<open>
  Claim C8. Rendering is a function of the state alone. Rendering again onto the canvas
  just rendered changes nothing; two canvases with a 2D context end up equal, whatever
  they held before; and the call always returns a canvas.
\<close>

theorem drawCanvas_deterministic:
  "drawCanvas st (drawCanvas st canvasRef) = drawCanvas st canvasRef
   \<and> (has_2d c1 \<and> has_2d c2 \<longrightarrow> drawCanvas st (Some c1) = drawCanvas st (Some c2))
   \<and> (\<exists>c'. drawCanvas st (Some c) = Some c')"
proof (intro conjI impI)
  show "drawCanvas st (drawCanvas st canvasRef) = drawCanvas st canvasRef"
  proof (cases canvasRef)
    case None
    then show ?thesis by (simp add: drawCanvas_def)
  next
    case (Some canvas)
    show ?thesis
    proof (cases "has_2d canvas")
      case True
      then show ?thesis unfolding Some
        by (simp add: drawCanvas_unfold foldl_keeps entry_keeps lined_canvas_fields)
    next
      case False
      then show ?thesis unfolding Some by (simp add: drawCanvas_def)
    qed
  qed
next
  assume "has_2d c1 \<and> has_2d c2"
  then show "drawCanvas st (Some c1) = drawCanvas st (Some c2)"
    by (simp add: drawCanvas_unfold)
next
  show "\<exists>c'. drawCanvas st (Some c) = Some c'"
    by (cases "has_2d c") (simp_all add: drawCanvas_unfold, simp add: drawCanvas_def)
qed

theorem drawCanvas_deterministic_witness:
  "has_2d (blank_canvas 0 0 :: nat canvas) \<and> has_2d (blank_canvas 5 9 :: nat canvas)
   \<and> drawCanvas (initial_state :: nat app_state) (Some (blank_canvas 0 0))
     = drawCanvas initial_state (Some (blank_canvas 5 9))
   \<and> drawCanvas (initial_state :: nat app_state) (drawCanvas initial_state (Some (blank_canvas 0 0)))
     = drawCanvas initial_state (Some (blank_canvas 0 0))"
  using drawCanvas_deterministic [of "initial_state :: nat app_state" "Some (blank_canvas 0 0)" "blank_canvas 0 0" "blank_canvas 5 9"
      "blank_canvas 0 0"]
  by (auto simp: blank_canvas_def)

text \<open>
  Claim C9. The ids of the entries in the list are unique, and no operation changes the
  id of an entry.

  No handler changes an id, but the ids need not be unique. An id is \<^verbatim>\<open>Date.now() + index\<close>,
  with the clock read when the decoded file is appended. Of two files selected together,
  let the second (index 1) be appended at time 1000 and the first (index 0) one
  millisecond later: both entries get the id 1001.
\<close>

theorem upload_ids_can_collide:
  "map img_id (images (handleImageUpload
      [\<lparr>file_index = 1, file_type = ''image/png'', file_name = ''b.png'', data_url = ''b'',
        decoded = (1 :: nat), date_now = 1000\<rparr>,
       \<lparr>file_index = 0, file_type = ''image/png'', file_name = ''a.png'', data_url = ''a'',
        decoded = 0, date_now = 1001\<rparr>]
      initial_state)) = [1001, 1001]"
  by (simp add: handleImageUpload_def image_onload_def startsWith_def initial_state_def)

text \<open>
  Claim C10. \<^verbatim>\<open>moveImage(id, p)\<close> sets the position of every entry with that id to \<open>p\<close> and
  changes nothing else: the list keeps its length and order, every entry keeps its id,
  source, image and name, the entries with another id are unchanged, and so are the grid
  and the width.
\<close>

theorem moveImage_frame:
  "map (\<lambda>e. (img_id e, src e, image_el e, name e)) (images (moveImage i p st))
     = map (\<lambda>e. (img_id e, src e, image_el e, name e)) (images st)
   \<and> map position (images (moveImage i p st))
     = map (\<lambda>e. if img_id e = i then p else position e) (images st)
   \<and> filter (\<lambda>e. img_id e \<noteq> i) (images (moveImage i p st))
     = filter (\<lambda>e. img_id e \<noteq> i) (images st)
   \<and> gridSize (moveImage i p st) = gridSize st
   \<and> customWidth (moveImage i p st) = customWidth st"
proof -
  have "filter (\<lambda>e. img_id e \<noteq> i) (map (\<lambda>img. if img_id img = i then img\<lparr>position := p\<rparr> else img) xs)
      = filter (\<lambda>e. img_id e \<noteq> i) xs" for xs :: "'a ImageData list"
    by (induction xs) simp_all
  then show ?thesis
    by (simp add: moveImage_def comp_def if_distrib cong: if_cong)
qed

theorem moveImage_frame_witness:
  "map position (images (moveImage 2 9 ((initial_state :: nat app_state)\<lparr>images :=
      [\<lparr>img_id = 1, src = ''a'', image_el = 1, name = ''a.png'', position = 0\<rparr>,
       \<lparr>img_id = 2, src = ''b'', image_el = 2, name = ''b.png'', position = 1\<rparr>,
       \<lparr>img_id = 2, src = ''c'', image_el = 3, name = ''c.png'', position = 2\<rparr>]\<rparr>)))
   = [0, 9, 9]
   \<and> map img_id (images (moveImage 2 9 ((initial_state :: nat app_state)\<lparr>images :=
      [\<lparr>img_id = 1, src = ''a'', image_el = 1, name = ''a.png'', position = 0\<rparr>,
       \<lparr>img_id = 2, src = ''b'', image_el = 2, name = ''b.png'', position = 1\<rparr>,
       \<lparr>img_id = 2, src = ''c'', image_el = 3, name = ''c.png'', position = 2\<rparr>]\<rparr>)))
   = [1, 2, 2]"
  using moveImage_frame [of 2 9 "(initial_state :: nat app_state)\<lparr>images :=
      [\<lparr>img_id = 1, src = ''a'', image_el = 1, name = ''a.png'', position = 0\<rparr>,
       \<lparr>img_id = 2, src = ''b'', image_el = 2, name = ''b.png'', position = 1\<rparr>,
       \<lparr>img_id = 2, src = ''c'', image_el = 3, name = ''c.png'', position = 2\<rparr>]\<rparr>"]
  by (simp add: moveImage_def)

end
